theory Spec2Isabelle
  imports Complex_Main "HOL-Library.Multiset"
begin

section \<open>Narration: the timing synthesizer (narration/tts.py)\<close>

text \<open>
  Python floats are modelled by exact rationals: every product, quotient and sum of
  \<open>_generate_dummy_timestamps\<close> is computed without binary rounding error, and the only
  rounding left is the explicit \<open>round(x, 3)\<close> of the source. Python rounds a tie to the
  even neighbour, which \<open>round_half_even\<close> does on the value scaled to milliseconds.
\<close>

definition round_half_even :: "rat \<Rightarrow> int" where
  "round_half_even x =
     (let f = \<lfloor>x\<rfloor>; d = x - of_int f
      in if d < 1 / 2 then f
         else if 1 / 2 < d then f + 1
         else if even f then f else f + 1)"

definition round3 :: "rat \<Rightarrow> rat" where
  \<comment> \<open>\<open>round(x, 3)\<close>\<close>
  "round3 x = of_int (round_half_even (x * 1000)) / 1000"

definition is_space :: "char \<Rightarrow> bool" where
  \<comment> \<open>the characters \<open>str.split()\<close> treats as separators, within ASCII:
      tab, line feed, vertical tab, form feed, carriage return, the four
      separators 28 to 31 and the blank\<close>
  "is_space c = (of_char c \<in> {9, 10, 11, 12, 13, 28, 29, 30, 31, 32 :: nat})"

fun split_acc :: "string \<Rightarrow> string \<Rightarrow> string list" where
  "split_acc cur [] = (if cur = [] then [] else [cur])"
| "split_acc cur (c # cs) =
     (if is_space c
      then (if cur = [] then split_acc [] cs else cur # split_acc [] cs)
      else split_acc (cur @ [c]) cs)"

definition split :: "string \<Rightarrow> string list" where
  \<comment> \<open>\<open>text.split()\<close>: the maximal runs of non-blank characters, in order\<close>
  "split text = split_acc [] text"

record word_timestamp =
  wt_word :: string
  wt_start :: rat
  wt_end :: rat
  wt_duration :: rat

fun timestamps_loop :: "rat \<Rightarrow> rat \<Rightarrow> string list \<Rightarrow> word_timestamp list" where
  \<comment> \<open>the \<open>for i, word in enumerate(words)\<close> loop; the second argument is
      \<open>current_time\<close>\<close>
  "timestamps_loop time_per_word current_time [] = []"
| "timestamps_loop time_per_word current_time (w # ws) =
     (let word_duration = time_per_word * (95 / 100)
      in \<lparr>wt_word = w,
          wt_start = round3 current_time,
          wt_end = round3 (current_time + word_duration),
          wt_duration = round3 word_duration\<rparr>
         # timestamps_loop time_per_word (current_time + time_per_word) ws)"

definition generate_dummy_timestamps :: "string \<Rightarrow> rat option \<Rightarrow> word_timestamp list" where
  \<comment> \<open>\<open>KyutaiTTS._generate_dummy_timestamps\<close>; \<open>None\<close> is the default
      \<open>total_duration = None\<close>\<close>
  "generate_dummy_timestamps text total_duration =
     (let words = split text
      in if words = [] then []
         else
           let total = (case total_duration of
                          None \<Rightarrow> of_nat (length words) / (5 / 2)
                        | Some d \<Rightarrow> d);
               time_per_word = total / of_nat (length words)
           in timestamps_loop time_per_word 0 words)"

section \<open>Narration: the speech engine adapter (narration/tts.py)\<close>

datatype backend = EdgeTTS | GTTS

datatype tts_exn = ImportError | OtherException

record tts_result =
  audio_path :: string
  duration :: rat
  word_timestamps :: "word_timestamp list"
  sample_rate :: nat
  fallback :: bool

text \<open>
  What the external libraries do during one call: each backend either raises or leaves an
  audio file whose decoded length \<open>len(audio)\<close> is a whole number of milliseconds.
\<close>

record tts_env =
  edge_run :: "tts_exn + nat"
  gtts_run :: "tts_exn + nat"

definition edge_tts ::
  "tts_env \<Rightarrow> string \<Rightarrow> string \<Rightarrow> backend list \<Rightarrow> (tts_exn + tts_result) \<times> backend list" where
  \<comment> \<open>\<open>KyutaiTTS._edge_tts\<close>; the last argument and the second result are the trace of
      backends invoked so far\<close>
  "edge_tts env text output_path trace =
     (case edge_run env of
        Inl e \<Rightarrow> (Inl e, trace @ [EdgeTTS])
      | Inr ms \<Rightarrow>
          (let duration = of_nat ms / 1000
           in (Inr \<lparr>audio_path = output_path,
                    duration = duration,
                    word_timestamps = generate_dummy_timestamps text (Some duration),
                    sample_rate = 24000,
                    fallback = True\<rparr>,
               trace @ [EdgeTTS])))"

definition fallback_tts ::
  "tts_env \<Rightarrow> string \<Rightarrow> string \<Rightarrow> backend list \<Rightarrow> tts_result option \<times> backend list" where
  \<comment> \<open>\<open>KyutaiTTS._fallback_tts\<close>\<close>
  "fallback_tts env text output_path trace =
     (case edge_tts env text output_path trace of
        (Inr r, trace1) \<Rightarrow> (Some r, trace1)
      | (Inl edge_error, trace1) \<Rightarrow>
          (case gtts_run env of
             Inl ImportError \<Rightarrow> (None, trace1 @ [GTTS])
           | Inl OtherException \<Rightarrow> (None, trace1 @ [GTTS])
           | Inr ms \<Rightarrow>
               (let duration = of_nat ms / 1000
                in (Some \<lparr>audio_path = output_path,
                          duration = duration,
                          word_timestamps = generate_dummy_timestamps text (Some duration),
                          sample_rate = 24000,
                          fallback = True\<rparr>,
                    trace1 @ [GTTS]))))"

definition generate_speech ::
  "tts_env \<Rightarrow> string \<Rightarrow> string \<Rightarrow> string option \<Rightarrow> backend list
   \<Rightarrow> tts_result option \<times> backend list" where
  \<comment> \<open>\<open>KyutaiTTS.generate_speech\<close>; \<open>default_path\<close> is the time-stamped file under
      \<open>TEMP_DIR\<close> used when no output path is given\<close>
  "generate_speech env default_path text output_path trace =
     (let output_path = (case output_path of None \<Rightarrow> default_path | Some p \<Rightarrow> p)
      in fallback_tts env text output_path trace)"

section \<open>Asset acquisition (video_assembly/assets.py)\<close>

subsection \<open>Download with retries\<close>






subsection \<open>Candidate selection\<close>

record video_file =
  width :: "int option"
  height :: "int option"
  link :: "string option"

record pexels_video =
  pexels_duration :: "int option"
  video_files :: "video_file list"

type_synonym tier = "(string \<times> string) list"

record pixabay_video =
  pixabay_duration :: "int option"
  videos :: "(string \<times> tier) list"

datatype video_payload = PexelsData pexels_video | PixabayData pixabay_video

record candidate =
  source :: string
  data :: video_payload
  keyword :: string
  cand_duration :: int

record asset_env =
  pexels_key :: string
  pixabay_key :: string
  pexels_api :: "string \<Rightarrow> pexels_video list option"
  pixabay_api :: "string \<Rightarrow> pixabay_video list option"

type_synonym query_log = "(string \<times> string) list"

definition search_pexels_videos ::
  "asset_env \<Rightarrow> string \<Rightarrow> query_log \<Rightarrow> pexels_video list option \<times> query_log" where
  \<comment> \<open>\<open>None\<close> without a key or when the request fails; the log records each request
      sent, as provider and query\<close>
  "search_pexels_videos env query qlog =
     (if pexels_key env = [] then (None, qlog)
      else (pexels_api env query, qlog @ [(''pexels'', query)]))"

definition search_pixabay_videos ::
  "asset_env \<Rightarrow> string \<Rightarrow> query_log \<Rightarrow> pixabay_video list option \<times> query_log" where
  "search_pixabay_videos env query qlog =
     (if pixabay_key env = [] then (None, qlog)
      else (pixabay_api env query, qlog @ [(''pixabay'', query)]))"

definition get_duration :: "int option \<Rightarrow> int" where
  \<comment> \<open>\<open>v.get('duration', 0)\<close>\<close>
  "get_duration d = (case d of None \<Rightarrow> 0 | Some n \<Rightarrow> n)"

definition pexels_candidates :: "int \<Rightarrow> string \<Rightarrow> pexels_video list \<Rightarrow> candidate list" where
  "pexels_candidates min_duration kw vs =
     map (\<lambda>video. \<lparr>source = ''pexels'', data = PexelsData video, keyword = kw,
                    cand_duration = get_duration (pexels_duration video)\<rparr>)
       (filter (\<lambda>v. min_duration \<le> get_duration (pexels_duration v) \<and> video_files v \<noteq> []) vs)"

definition pixabay_candidates :: "int \<Rightarrow> string \<Rightarrow> pixabay_video list \<Rightarrow> candidate list" where
  "pixabay_candidates min_duration kw vs =
     map (\<lambda>video. \<lparr>source = ''pixabay'', data = PixabayData video, keyword = kw,
                    cand_duration = get_duration (pixabay_duration video)\<rparr>)
       (filter (\<lambda>v. min_duration \<le> get_duration (pixabay_duration v) \<and> videos v \<noteq> []) vs)"

definition search_keyword ::
  "asset_env \<Rightarrow> string \<Rightarrow> int \<Rightarrow> string \<Rightarrow> candidate list \<Rightarrow> query_log
   \<Rightarrow> candidate list \<times> query_log" where
  \<comment> \<open>one iteration of the keyword loop: both providers, in the source's order\<close>
  "search_keyword env src min_duration kw all_videos qlog =
     (let (all1, qlog1) =
            (if (src = ''pexels'' \<or> src = ''both'') \<and> pexels_key env \<noteq> []
             then (case search_pexels_videos env kw qlog of
                     (Some vs, l) \<Rightarrow> (all_videos @ pexels_candidates min_duration kw vs, l)
                   | (None, l) \<Rightarrow> (all_videos, l))
             else (all_videos, qlog))
      in if (src = ''pixabay'' \<or> src = ''both'') \<and> pixabay_key env \<noteq> []
         then (case search_pixabay_videos env kw qlog1 of
                 (Some vs, l) \<Rightarrow> (all1 @ pixabay_candidates min_duration kw vs, l)
               | (None, l) \<Rightarrow> (all1, l))
         else (all1, qlog1))"

fun collect_videos ::
  "asset_env \<Rightarrow> string \<Rightarrow> int \<Rightarrow> string list \<Rightarrow> candidate list \<times> query_log
   \<Rightarrow> candidate list \<times> query_log" where
  \<comment> \<open>the \<open>for keyword in keywords[:3]\<close> loop, growing \<open>all_videos\<close>\<close>
  "collect_videos env src min_duration [] acc = acc"
| "collect_videos env src min_duration (kw # kws) acc =
     collect_videos env src min_duration kws
       (search_keyword env src min_duration kw (fst acc) (snd acc))"

definition sort_by_duration_desc :: "candidate list \<Rightarrow> candidate list" where
  \<comment> \<open>\<open>all_videos.sort(key=duration, reverse=True)\<close>: stable, longest first\<close>
  "sort_by_duration_desc cs = sort_key (\<lambda>c. - cand_duration c) cs"

definition random_choice :: "nat \<Rightarrow> 'a list \<Rightarrow> 'a" where
  \<comment> \<open>\<open>random.choice\<close> on a non-empty list: the generator's draw, reduced to an index
      below the length\<close>
  "random_choice rnd xs = xs ! (rnd mod length xs)"

definition find_best_video ::
  "asset_env \<Rightarrow> nat \<Rightarrow> string list \<Rightarrow> string \<Rightarrow> int \<Rightarrow> candidate option \<times> query_log" where
  \<comment> \<open>\<open>AssetManager.find_best_video\<close>\<close>
  "find_best_video env rnd keywords src min_duration =
     (let (all_videos, qlog) = collect_videos env src min_duration (take 3 keywords) ([], [])
      in if all_videos = [] then (None, qlog)
         else let top_videos = take 5 (sort_by_duration_desc all_videos)
              in (Some (random_choice rnd top_videos), qlog))"

definition video_pool :: "asset_env \<Rightarrow> string \<Rightarrow> int \<Rightarrow> string list \<Rightarrow> candidate list" where
  \<comment> \<open>\<open>all_videos\<close> when the keyword loop of \<open>find_best_video\<close> has ended\<close>
  "video_pool env src min_duration keywords =
     fst (collect_videos env src min_duration (take 3 keywords) ([], []))"

definition top_videos :: "asset_env \<Rightarrow> string \<Rightarrow> int \<Rightarrow> string list \<Rightarrow> candidate list" where
  \<comment> \<open>\<open>top_videos\<close> of \<open>find_best_video\<close>\<close>
  "top_videos env src min_duration keywords =
     take 5 (sort_by_duration_desc (video_pool env src min_duration keywords))"

definition example_video :: "int \<Rightarrow> pexels_video" where
  "example_video d =
     \<lparr>pexels_duration = Some d,
      video_files = [\<lparr>width = Some 1080, height = Some 1920, link = Some ''clip''\<rparr>]\<rparr>"

definition example_env :: asset_env where
  \<comment> \<open>one provider answering every query with clips of 5, 20, 15, 30, 25 and 10 seconds\<close>
  "example_env =
     \<lparr>pexels_key = ''key'', pixabay_key = [],
      pexels_api = (\<lambda>query. Some (map example_video [5, 20, 15, 30, 25, 10])),
      pixabay_api = (\<lambda>query. None)\<rparr>"

subsection \<open>URL extraction\<close>





section \<open>Captions and audio mixing (video_assembly/editor.py)\<close>

subsection \<open>The caption renderer\<close>










record editor_env =
  temp_dir :: string
  path_exists :: "string \<Rightarrow> bool"
  can_write :: "string \<Rightarrow> bool"


subsection \<open>The audio mixer\<close>

record mix_command =
  mix_voice :: string
  mix_music :: string
  mix_voice_volume :: rat
  mix_music_volume :: rat
  mix_output :: string

datatype process_outcome = Exited int | ProcessError

definition mix_audio ::
  "editor_env \<Rightarrow> (mix_command \<Rightarrow> process_outcome) \<Rightarrow> string \<Rightarrow> string option \<Rightarrow> string option
   \<Rightarrow> rat \<Rightarrow> rat \<Rightarrow> mix_command list \<Rightarrow> string option \<times> mix_command list" where
  \<comment> \<open>\<open>VideoEditor.mix_audio\<close>; the last argument and the second result list the
      FFmpeg runs started so far\<close>
  "mix_audio env ffmpeg voice_path music_path output_path voice_volume music_volume runs =
     (let output_path = (case output_path of
                           None \<Rightarrow> temp_dir env @ ''/mixed_audio.aac''
                         | Some p \<Rightarrow> p)
      in case music_path of
           None \<Rightarrow> (Some voice_path, runs)
         | Some music \<Rightarrow>
             (if \<not> path_exists env music then (Some voice_path, runs)
              else
                let cmd = \<lparr>mix_voice = voice_path, mix_music = music,
                           mix_voice_volume = voice_volume, mix_music_volume = music_volume,
                           mix_output = output_path\<rparr>
                in case ffmpeg cmd of
                     Exited returncode \<Rightarrow>
                       (if returncode = 0 then (Some output_path, runs @ [cmd])
                        else (None, runs @ [cmd]))
                   | ProcessError \<Rightarrow> (None, runs @ [cmd])))"

section \<open>The upload scheduler (publishing/scheduler.py)\<close>

record queue_entry =
  qe_id :: string
  qe_video_path :: string
  qe_title :: string
  qe_description :: string
  qe_tags :: "string list"
  qe_scheduled_time :: int
  qe_status :: string
  qe_added_at :: int
  qe_youtube_id :: "string option"
  qe_uploaded_at :: "int option"
  qe_error :: "string option"
  qe_failed_at :: "int option"

text \<open>
  Times are microseconds since the epoch. The scheduler holds the queue in memory and
  rewrites the queue file after a change; a write that fails is logged and ignored.
\<close>

record scheduler =
  queue :: "queue_entry list"
  queue_file :: "queue_entry list option"

definition save_queue :: "bool \<Rightarrow> scheduler \<Rightarrow> scheduler" where
  \<comment> \<open>\<open>VideoScheduler._save_queue\<close>; the flag says whether the file can be written\<close>
  "save_queue writable s = (if writable then s\<lparr>queue_file := Some (queue s)\<rparr> else s)"

fun update_first :: "(queue_entry \<Rightarrow> queue_entry) \<Rightarrow> string \<Rightarrow> queue_entry list
                     \<Rightarrow> queue_entry list option" where
  \<comment> \<open>the \<open>for video in self.queue\<close> loop of the two mark operations: the first
      entry with the id is updated in place; \<open>None\<close> when no entry has the id\<close>
  "update_first f video_id [] = None"
| "update_first f video_id (video # rest) =
     (if qe_id video = video_id then Some (f video # rest)
      else map_option ((#) video) (update_first f video_id rest))"

definition mark_uploaded ::
  "int \<Rightarrow> bool \<Rightarrow> string \<Rightarrow> string \<Rightarrow> scheduler \<Rightarrow> bool \<times> scheduler" where
  \<comment> \<open>\<open>VideoScheduler.mark_uploaded\<close>; \<open>now\<close> is \<open>datetime.now()\<close>\<close>
  "mark_uploaded now writable video_id youtube_id s =
     (case update_first
             (\<lambda>video. video\<lparr>qe_status := ''uploaded'',
                             qe_youtube_id := Some youtube_id,
                             qe_uploaded_at := Some now\<rparr>)
             video_id (queue s) of
        Some q \<Rightarrow> (True, save_queue writable (s\<lparr>queue := q\<rparr>))
      | None \<Rightarrow> (False, s))"

definition mark_failed ::
  "int \<Rightarrow> bool \<Rightarrow> string \<Rightarrow> string \<Rightarrow> scheduler \<Rightarrow> bool \<times> scheduler" where
  \<comment> \<open>\<open>VideoScheduler.mark_failed\<close>\<close>
  "mark_failed now writable video_id error s =
     (case update_first
             (\<lambda>video. video\<lparr>qe_status := ''failed'',
                             qe_error := Some error,
                             qe_failed_at := Some now\<rparr>)
             video_id (queue s) of
        Some q \<Rightarrow> (True, save_queue writable (s\<lparr>queue := q\<rparr>))
      | None \<Rightarrow> (False, s))"




definition example_entry :: "string \<Rightarrow> string \<Rightarrow> int \<Rightarrow> queue_entry" where
  \<comment> \<open>an entry as \<open>add_to_queue\<close> builds it, with the given id, status and time\<close>
  "example_entry i st t =
     \<lparr>qe_id = i, qe_video_path = ''video.mp4'', qe_title = ''Title'',
      qe_description = ''Description'', qe_tags = [''fact''], qe_scheduled_time = t,
      qe_status = st, qe_added_at = t, qe_youtube_id = None, qe_uploaded_at = None,
      qe_error = None, qe_failed_at = None\<rparr>"

section \<open>Properties of the timing synthesizer\<close>



















section \<open>Properties of the speech engine adapter\<close>

text \<open>
  Claim C3, as the code has it. Every call invokes Edge TTS first; gTTS is invoked exactly
  when Edge TTS raised, and after it; the call returns no result exactly when both raised;
  and every result returned, whichever backend produced it, carries \<open>fallback = True\<close>.
\<close>

theorem edge_first_and_flag_always_set:
  "snd (fallback_tts env text output_path trace)
     = (if isl (edge_run env) then trace @ [EdgeTTS, GTTS] else trace @ [EdgeTTS])
   \<and> (\<forall>r. fst (fallback_tts env text output_path trace) = Some r \<longrightarrow> fallback r)
   \<and> (fst (fallback_tts env text output_path trace) = None
        \<longleftrightarrow> isl (edge_run env) \<and> isl (gtts_run env))"
  by (auto simp: fallback_tts_def edge_tts_def Let_def split: sum.splits tts_exn.splits)

text \<open>The theorem where Edge TTS raises and gTTS produces 1.5 seconds of audio.\<close>

theorem edge_first_and_flag_always_set_witness:
  "snd (fallback_tts \<lparr>edge_run = Inl OtherException, gtts_run = Inr 1500\<rparr> ''hi'' ''out.wav'' [])
     = [EdgeTTS, GTTS]
   \<and> map_option fallback
        (fst (fallback_tts \<lparr>edge_run = Inl OtherException, gtts_run = Inr 1500\<rparr> ''hi'' ''out.wav'' []))
     = Some True"
  using edge_first_and_flag_always_set
    [of "\<lparr>edge_run = Inl OtherException, gtts_run = Inr 1500\<rparr>" "''hi''" "''out.wav''" "[]"]
  by (cases "fst (fallback_tts \<lparr>edge_run = Inl OtherException, gtts_run = Inr 1500\<rparr> ''hi'' ''out.wav'' [])") auto

text \<open>
  A result produced by the primary backend reports \<open>fallback = True\<close> although the
  secondary backend was never invoked.
\<close>

theorem primary_result_reports_fallback:
  "snd (fallback_tts \<lparr>edge_run = Inr 1000, gtts_run = Inr 1000\<rparr> ''hi'' ''out.wav'' [])
     = [EdgeTTS]
   \<and> map_option fallback
        (fst (fallback_tts \<lparr>edge_run = Inr 1000, gtts_run = Inr 1000\<rparr> ''hi'' ''out.wav'' []))
     = Some True"
  by (simp add: fallback_tts_def edge_tts_def Let_def)

section \<open>Properties of the download retry loop\<close>





section \<open>Properties of candidate selection\<close>

lemma search_keyword_log:
  "set (map snd (snd (search_keyword env src md kw all_videos qlog)))
     \<subseteq> set (map snd qlog) \<union> {kw}"
  by (auto simp: search_keyword_def search_pexels_videos_def search_pixabay_videos_def
           split: option.splits if_splits prod.splits)

lemma collect_videos_log:
  "set (map snd (snd (collect_videos env src md kws acc)))
     \<subseteq> set (map snd (snd acc)) \<union> set kws"
proof (induction kws arbitrary: acc)
  case Nil
  then show ?case by simp
next
  case (Cons kw kws)
  from Cons.IH[of "search_keyword env src md kw (fst acc) (snd acc)"]
       search_keyword_log[of env src md kw "fst acc" "snd acc"]
  show ?case by auto
qed

lemma search_keyword_sound:
  "c \<in> set (fst (search_keyword env src md kw all_videos qlog)) \<Longrightarrow>
   c \<in> set all_videos \<or> (md \<le> cand_duration c \<and> keyword c = kw)"
  by (auto simp: search_keyword_def search_pexels_videos_def search_pixabay_videos_def
                 pexels_candidates_def pixabay_candidates_def
           split: option.splits if_splits prod.splits)

lemma collect_videos_sound:
  "c \<in> set (fst (collect_videos env src md kws acc)) \<Longrightarrow>
   c \<in> set (fst acc) \<or> (md \<le> cand_duration c \<and> keyword c \<in> set kws)"
proof (induction kws arbitrary: acc)
  case Nil
  then show ?case by simp
next
  case (Cons kw kws)
  from Cons.IH[of "search_keyword env src md kw (fst acc) (snd acc)"] Cons.prems
  have "c \<in> set (fst (search_keyword env src md kw (fst acc) (snd acc)))
        \<or> (md \<le> cand_duration c \<and> keyword c \<in> set kws)" by simp
  then show ?case using search_keyword_sound[of c env src md kw "fst acc" "snd acc"] by auto
qed

lemma search_keyword_mono:
  "set all_videos \<subseteq> set (fst (search_keyword env src md kw all_videos qlog))"
  by (auto simp: search_keyword_def search_pexels_videos_def search_pixabay_videos_def
           split: option.splits if_splits prod.splits)

lemma collect_videos_mono:
  "set (fst acc) \<subseteq> set (fst (collect_videos env src md kws acc))"
proof (induction kws arbitrary: acc)
  case Nil
  then show ?case by simp
next
  case (Cons kw kws)
  from Cons.IH[of "search_keyword env src md kw (fst acc) (snd acc)"]
       search_keyword_mono[of "fst acc" env src md kw "snd acc"]
  show ?case by auto
qed

lemma search_keyword_pexels:
  assumes "src = ''pexels'' \<or> src = ''both''" "pexels_key env \<noteq> []"
    "pexels_api env kw = Some vs" "v \<in> set vs"
    "md \<le> get_duration (pexels_duration v)" "video_files v \<noteq> []"
  shows "\<lparr>source = ''pexels'', data = PexelsData v, keyword = kw,
          cand_duration = get_duration (pexels_duration v)\<rparr>
         \<in> set (fst (search_keyword env src md kw all_videos qlog))"
  using assms
  by (auto simp: search_keyword_def search_pexels_videos_def search_pixabay_videos_def
                 pexels_candidates_def
           split: option.splits if_splits prod.splits)

lemma search_keyword_pixabay:
  assumes "src = ''pixabay'' \<or> src = ''both''" "pixabay_key env \<noteq> []"
    "pixabay_api env kw = Some vs" "v \<in> set vs"
    "md \<le> get_duration (pixabay_duration v)" "videos v \<noteq> []"
  shows "\<lparr>source = ''pixabay'', data = PixabayData v, keyword = kw,
          cand_duration = get_duration (pixabay_duration v)\<rparr>
         \<in> set (fst (search_keyword env src md kw all_videos qlog))"
  using assms
  by (auto simp: search_keyword_def search_pexels_videos_def search_pixabay_videos_def
                 pixabay_candidates_def
           split: option.splits if_splits prod.splits)

lemma collect_videos_step:
  "c \<in> set (fst (search_keyword env src md kw (fst acc) (snd acc))) \<Longrightarrow>
   c \<in> set (fst (collect_videos env src md (kw # kws) acc))"
  using collect_videos_mono[of "search_keyword env src md kw (fst acc) (snd acc)" env src md kws]
  by auto

lemma collect_videos_complete:
  assumes "\<And>all_videos qlog. c \<in> set (fst (search_keyword env src md kw all_videos qlog))"
  shows "kw \<in> set kws \<Longrightarrow> c \<in> set (fst (collect_videos env src md kws acc))"
proof (induction kws arbitrary: acc)
  case Nil
  then show ?case by simp
next
  case (Cons k kws)
  show ?case
  proof (cases "k = kw")
    case True
    then show ?thesis using collect_videos_step[OF assms] by simp
  next
    case False
    with Cons.prems have "kw \<in> set kws" by simp
    from Cons.IH[OF this] show ?thesis by simp
  qed
qed

lemma find_best_video_unfold:
  "find_best_video env rnd keywords src md =
     (if video_pool env src md keywords = []
      then (None, snd (collect_videos env src md (take 3 keywords) ([], [])))
      else (Some (random_choice rnd (top_videos env src md keywords)),
            snd (collect_videos env src md (take 3 keywords) ([], []))))"
  by (simp add: find_best_video_def video_pool_def top_videos_def Let_def split: prod.splits)

lemma sort_desc_nonempty: "cs \<noteq> [] \<Longrightarrow> sort_by_duration_desc cs \<noteq> []"
proof -
  assume "cs \<noteq> []"
  then have "set (sort_by_duration_desc cs) \<noteq> {}"
    by (simp add: sort_by_duration_desc_def)
  then show ?thesis by auto
qed

lemma top_videos_nonempty:
  "video_pool env src md keywords \<noteq> [] \<Longrightarrow> top_videos env src md keywords \<noteq> []"
  by (simp add: top_videos_def sort_desc_nonempty)

lemma top_videos_subset:
  "set (top_videos env src md keywords) \<subseteq> set (video_pool env src md keywords)"
  using set_take_subset[of 5 "sort_by_duration_desc (video_pool env src md keywords)"]
  by (simp add: top_videos_def sort_by_duration_desc_def)

lemma video_pool_sound:
  "c \<in> set (video_pool env src md keywords) \<Longrightarrow>
   md \<le> cand_duration c \<and> keyword c \<in> set (take 3 keywords)"
  using collect_videos_sound[of c env src md "take 3 keywords" "([], [])"]
  by (simp add: video_pool_def)

lemma random_choice_mem: "xs \<noteq> [] \<Longrightarrow> random_choice rnd xs \<in> set xs"
  by (simp add: random_choice_def)

lemma sorted_desc:
  "sorted (map (\<lambda>c. - cand_duration c) (sort_by_duration_desc cs))"
  by (simp add: sort_by_duration_desc_def)

lemma top_dominates:
  assumes "c \<in> set (take n (sort_by_duration_desc cs))"
      and "c' \<in> set (drop n (sort_by_duration_desc cs))"
  shows "cand_duration c' \<le> cand_duration c"
proof -
  let ?s = "sort_by_duration_desc cs"
  have "sorted (map (\<lambda>c. - cand_duration c) (take n ?s @ drop n ?s))"
    using sorted_desc[of cs] by simp
  then have "\<forall>x \<in> set (take n ?s). \<forall>y \<in> set (drop n ?s). - cand_duration x \<le> - cand_duration y"
    unfolding map_append sorted_append by auto
  with assms show ?thesis by auto
qed

lemma example_top:
  "top_videos example_env ''both'' 10 [''ocean'']
     = map (\<lambda>d. \<lparr>source = ''pexels'', data = PexelsData (example_video d),
                  keyword = ''ocean'', cand_duration = d\<rparr>) [30, 25, 20, 15, 10]"
  by code_simp

lemma example_pool_nonempty: "video_pool example_env ''both'' 10 [''ocean''] \<noteq> []"
  by code_simp

lemma example_selection:
  "map_option cand_duration (fst (find_best_video example_env rnd [''ocean''] ''both'' 10))
     \<in> {Some 30, Some 25, Some 20, Some 15, Some 10}"
proof -
  let ?top = "top_videos example_env ''both'' 10 [''ocean'']"
  have "?top \<noteq> []" by (simp add: example_top)
  then have "random_choice rnd ?top \<in> set ?top" by (rule random_choice_mem)
  then have "cand_duration (random_choice rnd ?top) \<in> {30, 25, 20, 15, 10}"
    unfolding example_top by auto
  then show ?thesis
    by (auto simp: find_best_video_unfold example_pool_nonempty)
qed

text \<open>
  Claim C5. Only the first three keywords are queried; every candidate of the pool has a
  duration of at least \<open>min_duration\<close>, and every clip that a provider returned for one
  of these keywords with such a duration (and with files to download) is in the pool; the
  pool is sorted by descending duration, a permutation of itself in which no candidate
  beyond the fifth is longer than one of the first five; the result is one of these five,
  and each of them is the result for exactly the draw that is its index, so a uniform draw
  selects uniformly. For clips of 5, 20, 15, 30, 25 and 10 seconds and a minimum of 10 the
  result has a duration of 30, 25, 20, 15 or 10 seconds, never 5.
\<close>

theorem find_best_video_selection:
  "set (map snd (snd (find_best_video env rnd keywords src md))) \<subseteq> set (take 3 keywords)
   \<and> (fst (find_best_video env rnd keywords src md) = None
        \<longleftrightarrow> video_pool env src md keywords = [])
   \<and> (\<forall>c. fst (find_best_video env rnd keywords src md) = Some c \<longrightarrow>
          c \<in> set (top_videos env src md keywords) \<and> md \<le> cand_duration c
          \<and> keyword c \<in> set (take 3 keywords))
   \<and> (\<forall>c \<in> set (video_pool env src md keywords). md \<le> cand_duration c)
   \<and> (\<forall>kw vs v. kw \<in> set (take 3 keywords) \<and> (src = ''pexels'' \<or> src = ''both'')
          \<and> pexels_key env \<noteq> [] \<and> pexels_api env kw = Some vs \<and> v \<in> set vs
          \<and> md \<le> get_duration (pexels_duration v) \<and> video_files v \<noteq> [] \<longrightarrow>
          \<lparr>source = ''pexels'', data = PexelsData v, keyword = kw,
           cand_duration = get_duration (pexels_duration v)\<rparr>
            \<in> set (video_pool env src md keywords))
   \<and> (\<forall>kw vs v. kw \<in> set (take 3 keywords) \<and> (src = ''pixabay'' \<or> src = ''both'')
          \<and> pixabay_key env \<noteq> [] \<and> pixabay_api env kw = Some vs \<and> v \<in> set vs
          \<and> md \<le> get_duration (pixabay_duration v) \<and> videos v \<noteq> [] \<longrightarrow>
          \<lparr>source = ''pixabay'', data = PixabayData v, keyword = kw,
           cand_duration = get_duration (pixabay_duration v)\<rparr>
            \<in> set (video_pool env src md keywords))
   \<and> mset (sort_by_duration_desc (video_pool env src md keywords))
        = mset (video_pool env src md keywords)
   \<and> sorted (map (\<lambda>c. - cand_duration c)
               (sort_by_duration_desc (video_pool env src md keywords)))
   \<and> (\<forall>c \<in> set (top_videos env src md keywords).
        \<forall>c' \<in> set (drop 5 (sort_by_duration_desc (video_pool env src md keywords))).
          cand_duration c' \<le> cand_duration c)
   \<and> (\<forall>i < length (top_videos env src md keywords).
        fst (find_best_video env i keywords src md)
          = Some (top_videos env src md keywords ! i))
   \<and> map_option cand_duration (fst (find_best_video example_env rnd [''ocean''] ''both'' 10))
        \<in> {Some 30, Some 25, Some 20, Some 15, Some 10}"
proof -
  let ?pool = "video_pool env src md keywords"
  let ?top = "top_videos env src md keywords"
  have A: "set (map snd (snd (find_best_video env rnd keywords src md))) \<subseteq> set (take 3 keywords)"
    using collect_videos_log[of env src md "take 3 keywords" "([], [])"]
    by (simp add: find_best_video_unfold)
  have B: "fst (find_best_video env rnd keywords src md) = None \<longleftrightarrow> ?pool = []"
    by (simp add: find_best_video_unfold)
  have C: "\<forall>c. fst (find_best_video env rnd keywords src md) = Some c \<longrightarrow>
          c \<in> set ?top \<and> md \<le> cand_duration c \<and> keyword c \<in> set (take 3 keywords)"
  proof (intro allI impI)
    fix c assume c: "fst (find_best_video env rnd keywords src md) = Some c"
    then have ne: "?pool \<noteq> []" using B by auto
    with c have "c = random_choice rnd ?top" by (simp add: find_best_video_unfold)
    then have "c \<in> set ?top"
      using random_choice_mem[OF top_videos_nonempty[OF ne]] by simp
    moreover from this have "c \<in> set ?pool" using top_videos_subset by blast
    ultimately show "c \<in> set ?top \<and> md \<le> cand_duration c \<and> keyword c \<in> set (take 3 keywords)"
      using video_pool_sound by blast
  qed
  have D: "\<forall>c \<in> set ?pool. md \<le> cand_duration c"
    using video_pool_sound by blast
  have E: "\<forall>kw vs v. kw \<in> set (take 3 keywords) \<and> (src = ''pexels'' \<or> src = ''both'')
          \<and> pexels_key env \<noteq> [] \<and> pexels_api env kw = Some vs \<and> v \<in> set vs
          \<and> md \<le> get_duration (pexels_duration v) \<and> video_files v \<noteq> [] \<longrightarrow>
          \<lparr>source = ''pexels'', data = PexelsData v, keyword = kw,
           cand_duration = get_duration (pexels_duration v)\<rparr> \<in> set ?pool"
  proof (intro allI impI)
    fix kw vs v
    assume h: "kw \<in> set (take 3 keywords) \<and> (src = ''pexels'' \<or> src = ''both'')
          \<and> pexels_key env \<noteq> [] \<and> pexels_api env kw = Some vs \<and> v \<in> set vs
          \<and> md \<le> get_duration (pexels_duration v) \<and> video_files v \<noteq> []"
    then have "\<And>all_videos qlog.
        \<lparr>source = ''pexels'', data = PexelsData v, keyword = kw,
         cand_duration = get_duration (pexels_duration v)\<rparr>
          \<in> set (fst (search_keyword env src md kw all_videos qlog))"
      by (intro search_keyword_pexels) blast+
    from collect_videos_complete[OF this] h
    show "\<lparr>source = ''pexels'', data = PexelsData v, keyword = kw,
           cand_duration = get_duration (pexels_duration v)\<rparr> \<in> set ?pool"
      by (simp add: video_pool_def)
  qed
  have F: "\<forall>kw vs v. kw \<in> set (take 3 keywords) \<and> (src = ''pixabay'' \<or> src = ''both'')
          \<and> pixabay_key env \<noteq> [] \<and> pixabay_api env kw = Some vs \<and> v \<in> set vs
          \<and> md \<le> get_duration (pixabay_duration v) \<and> videos v \<noteq> [] \<longrightarrow>
          \<lparr>source = ''pixabay'', data = PixabayData v, keyword = kw,
           cand_duration = get_duration (pixabay_duration v)\<rparr> \<in> set ?pool"
  proof (intro allI impI)
    fix kw vs v
    assume h: "kw \<in> set (take 3 keywords) \<and> (src = ''pixabay'' \<or> src = ''both'')
          \<and> pixabay_key env \<noteq> [] \<and> pixabay_api env kw = Some vs \<and> v \<in> set vs
          \<and> md \<le> get_duration (pixabay_duration v) \<and> videos v \<noteq> []"
    then have "\<And>all_videos qlog.
        \<lparr>source = ''pixabay'', data = PixabayData v, keyword = kw,
         cand_duration = get_duration (pixabay_duration v)\<rparr>
          \<in> set (fst (search_keyword env src md kw all_videos qlog))"
      by (intro search_keyword_pixabay) blast+
    from collect_videos_complete[OF this] h
    show "\<lparr>source = ''pixabay'', data = PixabayData v, keyword = kw,
           cand_duration = get_duration (pixabay_duration v)\<rparr> \<in> set ?pool"
      by (simp add: video_pool_def)
  qed
  have G: "mset (sort_by_duration_desc ?pool) = mset ?pool"
    by (simp add: sort_by_duration_desc_def)
  have H: "sorted (map (\<lambda>c. - cand_duration c) (sort_by_duration_desc ?pool))"
    by (rule sorted_desc)
  have I: "\<forall>c \<in> set ?top. \<forall>c' \<in> set (drop 5 (sort_by_duration_desc ?pool)).
             cand_duration c' \<le> cand_duration c"
    unfolding top_videos_def using top_dominates by blast
  have J: "\<forall>i < length ?top. fst (find_best_video env i keywords src md) = Some (?top ! i)"
  proof (intro allI impI)
    fix i assume i: "i < length ?top"
    then have "?top \<noteq> []" by auto
    then have "?pool \<noteq> []" by (auto simp: top_videos_def sort_by_duration_desc_def)
    then show "fst (find_best_video env i keywords src md) = Some (?top ! i)"
      using i by (simp add: find_best_video_unfold random_choice_def)
  qed
  note K = example_selection[of rnd]
  show ?thesis
    apply (intro conjI)
    subgoal by (rule A)
    subgoal by (rule B)
    subgoal by (rule C)
    subgoal by (rule D)
    subgoal by (rule E)
    subgoal by (rule F)
    subgoal by (rule G)
    subgoal by (rule H)
    subgoal by (rule I)
    subgoal by (rule J)
    subgoal by (rule K)
    done
qed

text \<open>The theorem at four keywords and at one keyword, with the draw 7.\<close>

theorem find_best_video_selection_witness:
  "snd (find_best_video example_env 7 [''ocean'', ''sea'', ''wave'', ''reef''] ''both'' 10)
     = [(''pexels'', ''ocean''), (''pexels'', ''sea''), (''pexels'', ''wave'')]
   \<and> map_option cand_duration
        (fst (find_best_video example_env 7 [''ocean'', ''sea'', ''wave'', ''reef''] ''both'' 10))
     = Some 30
   \<and> map_option cand_duration (fst (find_best_video example_env 7 [''ocean''] ''both'' 10))
     = Some 20"
proof -
  have 1: "snd (find_best_video example_env 7 [''ocean'', ''sea'', ''wave'', ''reef''] ''both'' 10)
     = [(''pexels'', ''ocean''), (''pexels'', ''sea''), (''pexels'', ''wave'')]"
    by code_simp
  have 2: "map_option cand_duration
        (fst (find_best_video example_env 7 [''ocean'', ''sea'', ''wave'', ''reef''] ''both'' 10))
     = Some 30"
    by code_simp
  have 3: "map_option cand_duration (fst (find_best_video example_env 7 [''ocean''] ''both'' 10))
     = Some 20"
    by code_simp
  have "set (map snd (snd (find_best_video example_env 7 [''ocean'', ''sea'', ''wave'', ''reef''] ''both'' 10)))
          \<subseteq> set (take 3 [''ocean'', ''sea'', ''wave'', ''reef''])"
    using find_best_video_selection[of example_env 7 "[''ocean'', ''sea'', ''wave'', ''reef'']" "''both''" 10]
    by blast
  with 1 2 3 show ?thesis by simp
qed

section \<open>Properties of URL extraction\<close>







section \<open>Properties of the audio mixer\<close>

text \<open>
  Claim C7. When no music track is supplied, or the supplied music path does not exist, the
  mixer returns the voice path itself, as a result and not as a failure, and starts no
  FFmpeg run.
\<close>

theorem mix_audio_without_music:
  "music_path = None \<or> (\<exists>m. music_path = Some m \<and> \<not> path_exists env m) \<Longrightarrow>
   mix_audio env ffmpeg voice_path music_path output_path voice_volume music_volume runs
     = (Some voice_path, runs)"
  by (auto simp: mix_audio_def Let_def)

text \<open>The theorem without a music path and with one that does not exist.\<close>

theorem mix_audio_without_music_witness:
  "mix_audio \<lparr>temp_dir = ''temp'', path_exists = (\<lambda>p. p = ''voice.wav''), can_write = (\<lambda>p. True)\<rparr>
      (\<lambda>cmd. Exited 1) ''voice.wav'' None None 1 (1 / 5) [] = (Some ''voice.wav'', [])
   \<and> mix_audio \<lparr>temp_dir = ''temp'', path_exists = (\<lambda>p. p = ''voice.wav''), can_write = (\<lambda>p. True)\<rparr>
      (\<lambda>cmd. Exited 1) ''voice.wav'' (Some ''music.mp3'') None 1 (1 / 5) [] = (Some ''voice.wav'', [])"
proof -
  let ?env = "\<lparr>temp_dir = ''temp'', path_exists = (\<lambda>p. p = ''voice.wav''), can_write = (\<lambda>p. True)\<rparr>"
  have h1: "(None :: string option) = None \<or> (\<exists>m. (None :: string option) = Some m \<and> \<not> path_exists ?env m)"
    by simp
  have h2: "Some ''music.mp3'' = None \<or> (\<exists>m. Some ''music.mp3'' = Some m \<and> \<not> path_exists ?env m)"
    by simp
  from mix_audio_without_music[OF h1] mix_audio_without_music[OF h2]
  show ?thesis by simp
qed

section \<open>Properties of the caption renderer\<close>




section \<open>Properties of the upload scheduler\<close>

lemma update_first_None:
  "find (\<lambda>v. qe_id v = video_id) q = None \<Longrightarrow> update_first f video_id q = None"
  by (induction q) (auto split: if_splits)

lemma update_first_Some:
  "find (\<lambda>v. qe_id v = video_id) q = Some v \<Longrightarrow>
   \<exists>q'. update_first f video_id q = Some q'"
  by (induction q) (auto split: if_splits)

lemma update_first_find:
  assumes "\<And>v. qe_id (f v) = qe_id v"
  shows "update_first f video_id q = Some q' \<Longrightarrow>
   find (\<lambda>v. qe_id v = video_id) q' = map_option f (find (\<lambda>v. qe_id v = video_id) q)"
  using assms by (induction q arbitrary: q') (auto split: if_splits)

lemma update_first_others:
  assumes "\<And>v. qe_id (f v) = qe_id v"
  shows "update_first f video_id q = Some q' \<Longrightarrow>
   filter (\<lambda>v. qe_id v \<noteq> video_id) q' = filter (\<lambda>v. qe_id v \<noteq> video_id) q
   \<and> length q' = length q"
  using assms by (induction q arbitrary: q') (auto split: if_splits)

lemma queue_save [simp]: "queue (save_queue w s) = queue s"
  by (simp add: save_queue_def)

lemma mark_uploaded_found:
  assumes "find (\<lambda>v. qe_id v = video_id) (queue s) = Some v"
  shows "fst (mark_uploaded now w video_id youtube_id s) = True"
    and "find (\<lambda>v. qe_id v = video_id) (queue (snd (mark_uploaded now w video_id youtube_id s)))
         = Some (v\<lparr>qe_status := ''uploaded'', qe_youtube_id := Some youtube_id,
                    qe_uploaded_at := Some now\<rparr>)"
    and "filter (\<lambda>v. qe_id v \<noteq> video_id) (queue (snd (mark_uploaded now w video_id youtube_id s)))
         = filter (\<lambda>v. qe_id v \<noteq> video_id) (queue s)"
    and "length (queue (snd (mark_uploaded now w video_id youtube_id s))) = length (queue s)"
proof -
  let ?f = "\<lambda>video. video\<lparr>qe_status := ''uploaded'', qe_youtube_id := Some youtube_id,
                            qe_uploaded_at := Some now\<rparr>"
  from update_first_Some[OF assms, of ?f] obtain q' where
    q': "update_first ?f video_id (queue s) = Some q'" by blast
  have s': "mark_uploaded now w video_id youtube_id s = (True, save_queue w (s\<lparr>queue := q'\<rparr>))"
    by (simp add: mark_uploaded_def q')
  show "fst (mark_uploaded now w video_id youtube_id s) = True" by (simp add: s')
  show "find (\<lambda>v. qe_id v = video_id) (queue (snd (mark_uploaded now w video_id youtube_id s)))
         = Some (?f v)"
    using update_first_find[OF _ q'] assms by (simp add: s')
  show "filter (\<lambda>v. qe_id v \<noteq> video_id) (queue (snd (mark_uploaded now w video_id youtube_id s)))
         = filter (\<lambda>v. qe_id v \<noteq> video_id) (queue s)"
    using update_first_others[OF _ q'] by (simp add: s')
  show "length (queue (snd (mark_uploaded now w video_id youtube_id s))) = length (queue s)"
    using update_first_others[OF _ q'] by (simp add: s')
qed

lemma mark_failed_found:
  assumes "find (\<lambda>v. qe_id v = video_id) (queue s) = Some v"
  shows "fst (mark_failed now w video_id err s) = True"
    and "find (\<lambda>v. qe_id v = video_id) (queue (snd (mark_failed now w video_id err s)))
         = Some (v\<lparr>qe_status := ''failed'', qe_error := Some err,
                    qe_failed_at := Some now\<rparr>)"
    and "filter (\<lambda>v. qe_id v \<noteq> video_id) (queue (snd (mark_failed now w video_id err s)))
         = filter (\<lambda>v. qe_id v \<noteq> video_id) (queue s)"
    and "length (queue (snd (mark_failed now w video_id err s))) = length (queue s)"
proof -
  let ?f = "\<lambda>video. video\<lparr>qe_status := ''failed'', qe_error := Some err,
                            qe_failed_at := Some now\<rparr>"
  from update_first_Some[OF assms, of ?f] obtain q' where
    q': "update_first ?f video_id (queue s) = Some q'" by blast
  have s': "mark_failed now w video_id err s = (True, save_queue w (s\<lparr>queue := q'\<rparr>))"
    by (simp add: mark_failed_def q')
  show "fst (mark_failed now w video_id err s) = True" by (simp add: s')
  show "find (\<lambda>v. qe_id v = video_id) (queue (snd (mark_failed now w video_id err s)))
         = Some (?f v)"
    using update_first_find[OF _ q'] assms by (simp add: s')
  show "filter (\<lambda>v. qe_id v \<noteq> video_id) (queue (snd (mark_failed now w video_id err s)))
         = filter (\<lambda>v. qe_id v \<noteq> video_id) (queue s)"
    using update_first_others[OF _ q'] by (simp add: s')
  show "length (queue (snd (mark_failed now w video_id err s))) = length (queue s)"
    using update_first_others[OF _ q'] by (simp add: s')
qed

text \<open>
  Claim C8, as the code has it. Neither mark operation looks at the current status: when the
  queue has an entry with the id, \<open>mark_uploaded\<close> sets the status of the first such entry
  to \<open>uploaded\<close> and \<open>mark_failed\<close> sets it to \<open>failed\<close>, whatever the status was, both
  report success and leave every entry with another id as it was; when no entry has the id
  both report failure and change nothing. A second \<open>mark_uploaded\<close> for the same id
  succeeds again: the status stays \<open>uploaded\<close>, the YouTube id and the upload time are
  overwritten.
\<close>

theorem marks_overwrite_any_status:
  "(find (\<lambda>v. qe_id v = video_id) (queue s) = None \<longrightarrow>
      mark_uploaded now w video_id youtube_id s = (False, s)
      \<and> mark_failed now w video_id err s = (False, s))
   \<and> (find (\<lambda>v. qe_id v = video_id) (queue s) = Some v \<longrightarrow>
      fst (mark_uploaded now w video_id youtube_id s) = True
      \<and> find (\<lambda>v. qe_id v = video_id) (queue (snd (mark_uploaded now w video_id youtube_id s)))
          = Some (v\<lparr>qe_status := ''uploaded'', qe_youtube_id := Some youtube_id,
                     qe_uploaded_at := Some now\<rparr>)
      \<and> filter (\<lambda>v. qe_id v \<noteq> video_id) (queue (snd (mark_uploaded now w video_id youtube_id s)))
          = filter (\<lambda>v. qe_id v \<noteq> video_id) (queue s)
      \<and> fst (mark_failed now w video_id err s) = True
      \<and> find (\<lambda>v. qe_id v = video_id) (queue (snd (mark_failed now w video_id err s)))
          = Some (v\<lparr>qe_status := ''failed'', qe_error := Some err, qe_failed_at := Some now\<rparr>)
      \<and> filter (\<lambda>v. qe_id v \<noteq> video_id) (queue (snd (mark_failed now w video_id err s)))
          = filter (\<lambda>v. qe_id v \<noteq> video_id) (queue s)
      \<and> fst (mark_uploaded now2 w2 video_id youtube_id2
               (snd (mark_uploaded now w video_id youtube_id s))) = True
      \<and> find (\<lambda>v. qe_id v = video_id)
           (queue (snd (mark_uploaded now2 w2 video_id youtube_id2
                          (snd (mark_uploaded now w video_id youtube_id s)))))
          = Some (v\<lparr>qe_status := ''uploaded'', qe_youtube_id := Some youtube_id2,
                     qe_uploaded_at := Some now2\<rparr>))"
proof (intro conjI impI)
  assume n: "find (\<lambda>v. qe_id v = video_id) (queue s) = None"
  show "mark_uploaded now w video_id youtube_id s = (False, s)"
    by (simp add: mark_uploaded_def update_first_None[OF n])
  show "mark_failed now w video_id err s = (False, s)"
    by (simp add: mark_failed_def update_first_None[OF n])
next
  assume f: "find (\<lambda>v. qe_id v = video_id) (queue s) = Some v"
  note u = mark_uploaded_found[OF f, of now w youtube_id]
  note m = mark_failed_found[OF f, of now w err]
  show "fst (mark_uploaded now w video_id youtube_id s) = True" by (rule u(1))
  show "find (\<lambda>v. qe_id v = video_id) (queue (snd (mark_uploaded now w video_id youtube_id s)))
          = Some (v\<lparr>qe_status := ''uploaded'', qe_youtube_id := Some youtube_id,
                     qe_uploaded_at := Some now\<rparr>)" by (rule u(2))
  show "filter (\<lambda>v. qe_id v \<noteq> video_id) (queue (snd (mark_uploaded now w video_id youtube_id s)))
          = filter (\<lambda>v. qe_id v \<noteq> video_id) (queue s)" by (rule u(3))
  show "fst (mark_failed now w video_id err s) = True" by (rule m(1))
  show "find (\<lambda>v. qe_id v = video_id) (queue (snd (mark_failed now w video_id err s)))
          = Some (v\<lparr>qe_status := ''failed'', qe_error := Some err, qe_failed_at := Some now\<rparr>)"
    by (rule m(2))
  show "filter (\<lambda>v. qe_id v \<noteq> video_id) (queue (snd (mark_failed now w video_id err s)))
          = filter (\<lambda>v. qe_id v \<noteq> video_id) (queue s)" by (rule m(3))
  note u2 = mark_uploaded_found[OF u(2), of now2 w2 youtube_id2]
  show "fst (mark_uploaded now2 w2 video_id youtube_id2
               (snd (mark_uploaded now w video_id youtube_id s))) = True" by (rule u2(1))
  show "find (\<lambda>v. qe_id v = video_id)
           (queue (snd (mark_uploaded now2 w2 video_id youtube_id2
                          (snd (mark_uploaded now w video_id youtube_id s)))))
          = Some (v\<lparr>qe_status := ''uploaded'', qe_youtube_id := Some youtube_id2,
                     qe_uploaded_at := Some now2\<rparr>)"
    using u2(2) by simp
qed

text \<open>The theorem at a queue of a failed and a pending entry.\<close>

theorem marks_overwrite_any_status_witness:
  "fst (mark_uploaded 20 True ''1'' ''yt''
         \<lparr>queue = [example_entry ''1'' ''failed'' 10, example_entry ''2'' ''pending'' 11],
          queue_file = None\<rparr>) = True
   \<and> map_option qe_status
        (find (\<lambda>v. qe_id v = ''1'')
          (queue (snd (mark_uploaded 20 True ''1'' ''yt''
             \<lparr>queue = [example_entry ''1'' ''failed'' 10, example_entry ''2'' ''pending'' 11],
              queue_file = None\<rparr>)))) = Some ''uploaded''
   \<and> mark_failed 20 True ''3'' ''quota''
         \<lparr>queue = [example_entry ''1'' ''failed'' 10, example_entry ''2'' ''pending'' 11],
          queue_file = None\<rparr>
       = (False,
          \<lparr>queue = [example_entry ''1'' ''failed'' 10, example_entry ''2'' ''pending'' 11],
           queue_file = None\<rparr>)"
proof -
  let ?s = "\<lparr>queue = [example_entry ''1'' ''failed'' 10, example_entry ''2'' ''pending'' 11],
             queue_file = None\<rparr>"
  have f1: "find (\<lambda>v. qe_id v = ''1'') (queue ?s) = Some (example_entry ''1'' ''failed'' 10)"
    by (simp add: example_entry_def)
  have f3: "find (\<lambda>v. qe_id v = ''3'') (queue ?s) = None"
    by (simp add: example_entry_def)
  from marks_overwrite_any_status[of "''1''" ?s 20 True "''yt''" "''quota''"
         "example_entry ''1'' ''failed'' 10" 30 True "''yt2''"] f1
  have 1: "fst (mark_uploaded 20 True ''1'' ''yt'' ?s) = True"
    and 2: "map_option qe_status
        (find (\<lambda>v. qe_id v = ''1'') (queue (snd (mark_uploaded 20 True ''1'' ''yt'' ?s))))
        = Some ''uploaded''"
    by simp_all
  from marks_overwrite_any_status[of "''3''" ?s 20 True "''yt''" "''quota''"] f3
  have 3: "mark_failed 20 True ''3'' ''quota'' ?s = (False, ?s)" by simp
  from 1 2 3 show ?thesis by simp
qed

text \<open>
  The statuses are not terminal: an entry marked uploaded is moved to \<open>failed\<close> by
  \<open>mark_failed\<close>, and a failed entry is moved to \<open>uploaded\<close> by \<open>mark_uploaded\<close>.
\<close>

theorem uploaded_entry_marked_failed:
  "map qe_status (queue (snd (mark_uploaded 20 True ''1'' ''yt''
       \<lparr>queue = [example_entry ''1'' ''pending'' 10], queue_file = None\<rparr>))) = [''uploaded'']
   \<and> map qe_status (queue (snd (mark_failed 30 True ''1'' ''quota''
       (snd (mark_uploaded 20 True ''1'' ''yt''
          \<lparr>queue = [example_entry ''1'' ''pending'' 10], queue_file = None\<rparr>))))) = [''failed'']
   \<and> map qe_status (queue (snd (mark_uploaded 40 True ''1'' ''yt''
       \<lparr>queue = [example_entry ''1'' ''failed'' 10], queue_file = None\<rparr>))) = [''uploaded'']"
  by (simp add: mark_uploaded_def mark_failed_def example_entry_def save_queue_def)







end
